theory Spec2Isabelle
  imports Complex_Main "HOL-Library.AList"
begin

section \<open>The scene-state history engine of the canvas editor\<close>

text \<open>
  The program is a React component (\<^verbatim>\<open>Canvas\<close>) that edits a scene held by the fabric
  graphics library and keeps an undo/redo history of serialized scenes. The component's
  handlers are embedded below as functions on an explicit application state. The
  variant embedded is the one that implements every operation of the specification
  (history, deletion, element colour, layer controls); the two handlers that an earlier
  variant in the repository writes differently follow at the end of the embedding.

  Two things the handlers call are not part of the repository and are treated as follows.
  \<^item> The fabric canvas (the specification's Scene Surface) is modelled from the contract the
    specification gives for it: an ordered object list that is the paint order, at most one
    active object, add, remove, reordering, \<^verbatim>\<open>toJSON\<close> and \<^verbatim>\<open>loadFromJSON\<close>.
  \<^item> The runtime's text codec (\<^verbatim>\<open>JSON.stringify\<close>, \<^verbatim>\<open>JSON.parse\<close>) is a parameter of
    the model; a theorem that needs the codec to round-trip says so in a hypothesis.
\<close>

subsection \<open>Drawable objects\<close>

text \<open>
  A JavaScript number or string held in an object's property. Numbers are rationals: the
  handlers do no arithmetic on them, so rounding of doubles plays no role.
\<close>

datatype jsval = Num rat | Str string

text \<open>
  Modelled from the spec: the DrawableObject of the data model (a fabric object, external
  library code). It is its \<^verbatim>\<open>type\<close> string and the properties the program has set on it,
  in the order they were first set. Properties the library fills in by default are not
  represented. The constructors are the library's, named as the component imports them,
  each with the type string the library gives its objects.
\<close>

record fabric_object =
  otype :: string
  props :: "(string \<times> jsval) list"

definition Rect :: "(string \<times> jsval) list \<Rightarrow> fabric_object" where
  "Rect options = \<lparr>otype = ''rect'', props = options\<rparr>"

definition Circle :: "(string \<times> jsval) list \<Rightarrow> fabric_object" where
  "Circle options = \<lparr>otype = ''circle'', props = options\<rparr>"

definition Triangle :: "(string \<times> jsval) list \<Rightarrow> fabric_object" where
  "Triangle options = \<lparr>otype = ''triangle'', props = options\<rparr>"

text \<open>\<^verbatim>\<open>new Line([x1, y1, x2, y2], options)\<close>: the four coordinates become properties.\<close>

definition Line :: "rat \<times> rat \<times> rat \<times> rat \<Rightarrow> (string \<times> jsval) list \<Rightarrow> fabric_object" where
  "Line points options =
     (case points of (x1, y1, x2, y2) \<Rightarrow>
        \<lparr>otype = ''line'',
         props = [(''x1'', Num x1), (''y1'', Num y1), (''x2'', Num x2), (''y2'', Num y2)]
                 @ options\<rparr>)"

definition IText :: "string \<Rightarrow> (string \<times> jsval) list \<Rightarrow> fabric_object" where
  "IText content options = \<lparr>otype = ''i-text'', props = (''text'', Str content) # options\<rparr>"

text \<open>
  Modelled from the spec: \<^verbatim>\<open>object.set({k: v, ...})\<close> of the library. Each listed property
  is overwritten or added, and no other property changes.
\<close>

definition set_props :: "fabric_object \<Rightarrow> (string \<times> jsval) list \<Rightarrow> fabric_object" where
  "set_props obj kvs = obj\<lparr>props := fold (\<lambda>(k, v). AList.update k v) kvs (props obj)\<rparr>"

subsection \<open>The fabric canvas\<close>

text \<open>
  Modelled from the spec: the Scene Surface contract (fabric's \<^verbatim>\<open>Canvas\<close> class, an external
  library). \<open>objects\<close> is the object list, index 0 painted first. The active object is a
  position in that list, since an object's identity serves selection only. \<open>rendered\<close>
  counts the \<^verbatim>\<open>renderAll\<close> calls made so far. The display dimensions are left out: only the
  resize listener touches them.
\<close>

record fabric_canvas =
  objects :: "fabric_object list"
  backgroundColor :: string
  activeObject :: "nat option"
  rendered :: nat

text \<open>
  Modelled from the spec: a new surface, as
  \<^verbatim>\<open>new FabricCanvas(element, {width, height, backgroundColor: "#ffffff"})\<close> creates it, is
  empty with nothing selected.
\<close>

definition new_canvas :: fabric_canvas where
  "new_canvas = \<lparr>objects = [], backgroundColor = ''#ffffff'', activeObject = None, rendered = 0\<rparr>"

text \<open>
  Modelled from the spec: \<^verbatim>\<open>getActiveObject\<close>, \<^verbatim>\<open>setActiveObject\<close> and \<^verbatim>\<open>renderAll\<close> of
  the Surface contract. The active object is always an object of the list, so a position
  outside the list stands for no selection.
\<close>

definition canvas_getActiveObject :: "fabric_canvas \<Rightarrow> nat option" where
  "canvas_getActiveObject c =
     (case activeObject c of
        None \<Rightarrow> None
      | Some i \<Rightarrow> if i < length (objects c) then Some i else None)"

definition canvas_setActiveObject :: "nat \<Rightarrow> fabric_canvas \<Rightarrow> fabric_canvas" where
  "canvas_setActiveObject i c = c\<lparr>activeObject := Some i\<rparr>"

definition canvas_renderAll :: "fabric_canvas \<Rightarrow> fabric_canvas" where
  "canvas_renderAll c = c\<lparr>rendered := Suc (rendered c)\<rparr>"

text \<open>
  Modelled from the spec: \<^verbatim>\<open>canvas.add(obj)\<close> appends, so that a new object is painted
  last, on top.
\<close>

definition canvas_add :: "fabric_object \<Rightarrow> fabric_canvas \<Rightarrow> fabric_canvas" where
  "canvas_add obj c = c\<lparr>objects := objects c @ [obj]\<rparr>"

text \<open>
  Modelled from the spec: \<^verbatim>\<open>canvas.remove(obj)\<close> for the object at position \<open>i\<close>. A
  removed active object is deselected; a selection above it moves down with its object.
\<close>

definition canvas_remove :: "nat \<Rightarrow> fabric_canvas \<Rightarrow> fabric_canvas" where
  "canvas_remove i c =
     (if i < length (objects c) then
        c\<lparr>objects := take i (objects c) @ drop (Suc i) (objects c),
          activeObject :=
            (case activeObject c of
               None \<Rightarrow> None
             | Some j \<Rightarrow> if j = i then None else if i < j then Some (j - 1) else Some j)\<rparr>
      else c)"

text \<open>
  Modelled from the spec: the four reordering primitives of the Surface contract
  (\<^verbatim>\<open>bringToFront\<close>, \<^verbatim>\<open>sendToBack\<close>, \<^verbatim>\<open>bringForward\<close>, \<^verbatim>\<open>sendBackwards\<close>), for the
  object at position \<open>i\<close>. Each is a move within the list: to the top, to the bottom, or
  one position up or down where there is one. The selection follows its object.
\<close>

definition canvas_bringToFront :: "nat \<Rightarrow> fabric_canvas \<Rightarrow> fabric_canvas" where
  "canvas_bringToFront i c =
     (if i < length (objects c) then
        c\<lparr>objects := take i (objects c) @ drop (Suc i) (objects c) @ [objects c ! i],
          activeObject :=
            map_option
              (\<lambda>j. if j = i then length (objects c) - 1 else if i < j then j - 1 else j)
              (activeObject c)\<rparr>
      else c)"

definition canvas_sendToBack :: "nat \<Rightarrow> fabric_canvas \<Rightarrow> fabric_canvas" where
  "canvas_sendToBack i c =
     (if i < length (objects c) then
        c\<lparr>objects := (objects c ! i) # take i (objects c) @ drop (Suc i) (objects c),
          activeObject :=
            map_option (\<lambda>j. if j = i then 0 else if j < i then Suc j else j) (activeObject c)\<rparr>
      else c)"

definition canvas_bringForward :: "nat \<Rightarrow> fabric_canvas \<Rightarrow> fabric_canvas" where
  "canvas_bringForward i c =
     (if Suc i < length (objects c) then
        c\<lparr>objects := (objects c)[i := objects c ! Suc i, Suc i := objects c ! i],
          activeObject :=
            map_option (\<lambda>j. if j = i then Suc i else if j = Suc i then i else j)
              (activeObject c)\<rparr>
      else c)"

definition canvas_sendBackwards :: "nat \<Rightarrow> fabric_canvas \<Rightarrow> fabric_canvas" where
  "canvas_sendBackwards i c =
     (if 0 < i \<and> i < length (objects c) then
        c\<lparr>objects := (objects c)[i - 1 := objects c ! i, i := objects c ! (i - 1)],
          activeObject :=
            map_option (\<lambda>j. if j = i then i - 1 else if j = i - 1 then i else j)
              (activeObject c)\<rparr>
      else c)"

text \<open>
  Modelled from the spec: what \<^verbatim>\<open>canvas.toJSON()\<close> returns, the object list with all
  attributes, and the background. The selection and the render count are not part of it.
\<close>

record canvas_json =
  json_objects :: "fabric_object list"
  json_background :: string

definition canvas_toJSON :: "fabric_canvas \<Rightarrow> canvas_json" where
  "canvas_toJSON c = \<lparr>json_objects = objects c, json_background = backgroundColor c\<rparr>"

text \<open>
  Modelled from the spec: \<^verbatim>\<open>canvas.loadFromJSON(json, callback)\<close>. The object list and
  the background are replaced by the description's, and nothing is selected afterwards.
  The callback is run by the caller below. Notifications the library may emit while it
  re-creates the objects are not modelled.
\<close>

definition canvas_loadFromJSON :: "canvas_json \<Rightarrow> fabric_canvas \<Rightarrow> fabric_canvas" where
  "canvas_loadFromJSON json c =
     c\<lparr>objects := json_objects json, backgroundColor := json_background json,
       activeObject := None\<rparr>"

subsection \<open>The text codec\<close>

text \<open>
  \<^verbatim>\<open>JSON.stringify\<close> and \<^verbatim>\<open>JSON.parse\<close> belong to the JavaScript runtime. They are a
  parameter: \<open>stringify\<close> gives the text of a scene description, and \<open>parse\<close> gives
  \<open>None\<close> where \<^verbatim>\<open>JSON.parse\<close> throws on a malformed text.
\<close>

record json_codec =
  stringify :: "canvas_json \<Rightarrow> string"
  parse :: "string \<Rightarrow> canvas_json option"

datatype error = SyntaxError

text \<open>
  A handler either returns or throws. Both carry the state the handler leaves behind,
  because what a handler wrote before it threw stays written.
\<close>

datatype 'a result = Ok 'a | Throws error 'a

fun state_of :: "'a result \<Rightarrow> 'a" where
  "state_of (Ok s) = s"
| "state_of (Throws e s) = s"

subsection \<open>The component's state\<close>

text \<open>
  The \<^verbatim>\<open>useState\<close> cells, the \<^verbatim>\<open>historyRef\<close> with its two stacks (the last element of a
  list is the top, as \<^verbatim>\<open>push\<close> and \<^verbatim>\<open>pop\<close> work at the end of an array), and the
  notifications shown through \<^verbatim>\<open>toast\<close>, oldest first. The cell \<^verbatim>\<open>activeTool\<close> is never
  read or written after its declaration and is left out.
\<close>

record app =
  canvas :: "fabric_canvas option"
  fontSize :: rat
  fontFamily :: string
  fontColor :: string
  elementColor :: string
  past :: "string list"
  future :: "string list"
  toasts :: "string list"

definition initial_app :: app where
  "initial_app =
     \<lparr>canvas = None, fontSize = 20, fontFamily = ''Arial'', fontColor = ''#000000'',
      elementColor = ''#e2e8f0'', past = [], future = [], toasts = []\<rparr>"

definition toast :: "string \<Rightarrow> app \<Rightarrow> app" where
  "toast msg s = s\<lparr>toasts := toasts s @ [msg]\<rparr>"

text \<open>The listener registered for \<^verbatim>\<open>object:added\<close>.\<close>

definition on_object_added :: "fabric_object \<Rightarrow> app \<Rightarrow> app" where
  "on_object_added target s = toast (''Layer added: '' @ otype target) s"

subsection \<open>History\<close>

definition saveState :: "json_codec \<Rightarrow> fabric_canvas \<Rightarrow> app \<Rightarrow> app" where
  "saveState J fabricCanvas s =
     (let state = stringify J (canvas_toJSON fabricCanvas)
      in s\<lparr>past := past s @ [state], future := []\<rparr>)"

text \<open>
  The mount effect: the canvas is created and stored, and the initial state is saved. The
  element the canvas attaches to is taken to exist.
\<close>

definition mount :: "json_codec \<Rightarrow> app \<Rightarrow> app" where
  "mount J s =
     (let fabricCanvas = new_canvas;
          s1 = s\<lparr>canvas := Some fabricCanvas\<rparr>;
          s2 = toast ''Canvas ready!'' s1
      in saveState J fabricCanvas s2)"

text \<open>The listener registered for \<^verbatim>\<open>object:modified\<close>.\<close>

definition on_object_modified :: "json_codec \<Rightarrow> app \<Rightarrow> app" where
  "on_object_modified J s =
     (case canvas s of None \<Rightarrow> s | Some fabricCanvas \<Rightarrow> saveState J fabricCanvas s)"

text \<open>
  \<^verbatim>\<open>undo\<close>. The guard \<^verbatim>\<open>if (current)\<close> tests a string, which is falsy exactly when empty.
  The argument \<^verbatim>\<open>JSON.parse(previousState)\<close> is evaluated before \<^verbatim>\<open>loadFromJSON\<close> is
  entered, and after both stacks were written.
\<close>

definition undo :: "json_codec \<Rightarrow> app \<Rightarrow> app result" where
  "undo J s =
     (case canvas s of
        None \<Rightarrow> Ok s
      | Some c \<Rightarrow>
          if length (past s) \<le> 1 then Ok s
          else
            let current = last (past s);
                s1 = s\<lparr>past := butlast (past s)\<rparr>
            in if current \<noteq> [] then
                 let s2 = s1\<lparr>future := future s1 @ [current]\<rparr>;
                     previousState = last (past s2)
                 in (case parse J previousState of
                       None \<Rightarrow> Throws SyntaxError s2
                     | Some json \<Rightarrow>
                         let c1 = canvas_loadFromJSON json c;
                             c2 = canvas_renderAll c1
                         in Ok (toast ''Undo successful!'' (s2\<lparr>canvas := Some c2\<rparr>)))
               else Ok s1)"

definition redo :: "json_codec \<Rightarrow> app \<Rightarrow> app result" where
  "redo J s =
     (case canvas s of
        None \<Rightarrow> Ok s
      | Some c \<Rightarrow>
          if future s = [] then Ok s
          else
            let nextState = last (future s);
                s1 = s\<lparr>future := butlast (future s)\<rparr>
            in if nextState \<noteq> [] then
                 let s2 = s1\<lparr>past := past s1 @ [nextState]\<rparr>
                 in (case parse J nextState of
                       None \<Rightarrow> Throws SyntaxError s2
                     | Some json \<Rightarrow>
                         let c1 = canvas_loadFromJSON json c;
                             c2 = canvas_renderAll c1
                         in Ok (toast ''Redo successful!'' (s2\<lparr>canvas := Some c2\<rparr>)))
               else Ok s1)"

subsection \<open>Creating and deleting objects\<close>

definition deleteSelected :: "json_codec \<Rightarrow> app \<Rightarrow> app" where
  "deleteSelected J s =
     (case canvas s of
        None \<Rightarrow> s
      | Some c \<Rightarrow>
          (case canvas_getActiveObject c of
             None \<Rightarrow> s
           | Some i \<Rightarrow>
               let c1 = canvas_remove i c;
                   c2 = canvas_renderAll c1;
                   s1 = toast ''Element deleted!'' (s\<lparr>canvas := Some c2\<rparr>)
               in saveState J c2 s1))"

text \<open>The \<^verbatim>\<open>switch\<close> of \<^verbatim>\<open>addShape\<close>; \<open>None\<close> is its \<^verbatim>\<open>default: return\<close>.\<close>

definition new_shape :: "string \<Rightarrow> string \<Rightarrow> fabric_object option" where
  "new_shape type color =
     (if type = ''rectangle'' then
        Some (Rect [(''left'', Num 100), (''top'', Num 100), (''fill'', Str color),
                    (''width'', Num 100), (''height'', Num 100)])
      else if type = ''circle'' then
        Some (Circle [(''left'', Num 100), (''top'', Num 100), (''fill'', Str color),
                      (''radius'', Num 50)])
      else if type = ''triangle'' then
        Some (Triangle [(''left'', Num 100), (''top'', Num 100), (''fill'', Str color),
                        (''width'', Num 100), (''height'', Num 100)])
      else if type = ''line'' then
        Some (Line (50, 100, 200, 100) [(''stroke'', Str color), (''strokeWidth'', Num 2)])
      else None)"

definition addShape :: "json_codec \<Rightarrow> string \<Rightarrow> app \<Rightarrow> app" where
  "addShape J type s =
     (case canvas s of
        None \<Rightarrow> s
      | Some c \<Rightarrow>
          (case new_shape type (elementColor s) of
             None \<Rightarrow> s
           | Some shape \<Rightarrow>
               let c1 = canvas_add shape c;
                   s1 = on_object_added shape s;
                   c2 = canvas_setActiveObject (length (objects c1) - 1) c1;
                   c3 = canvas_renderAll c2
               in saveState J c3 (s1\<lparr>canvas := Some c3\<rparr>)))"

definition addText :: "app \<Rightarrow> app" where
  "addText s =
     (case canvas s of
        None \<Rightarrow> s
      | Some c \<Rightarrow>
          let text = IText ''Click to edit text''
                       [(''left'', Num 100), (''top'', Num 100),
                        (''fontFamily'', Str (fontFamily s)), (''fill'', Str (fontColor s)),
                        (''fontSize'', Num (fontSize s))];
              c1 = canvas_add text c;
              s1 = on_object_added text s;
              c2 = canvas_setActiveObject (length (objects c1) - 1) c1;
              c3 = canvas_renderAll c2
          in s1\<lparr>canvas := Some c3\<rparr>)"

text \<open>
  The \<^verbatim>\<open>img.onload\<close> handler inside \<^verbatim>\<open>handleImageUpload\<close>, run once per decoded file.
  \<open>fabricImage\<close> is the image object after its construction at a random offset and
  \<^verbatim>\<open>scaleToWidth(200)\<close>. The handler was created only for a mounted canvas.
\<close>

definition image_onload :: "json_codec \<Rightarrow> fabric_object \<Rightarrow> app \<Rightarrow> app" where
  "image_onload J fabricImage s =
     (case canvas s of
        None \<Rightarrow> s
      | Some c \<Rightarrow>
          let c1 = canvas_add fabricImage c;
              s1 = on_object_added fabricImage s;
              c2 = canvas_renderAll c1;
              s2 = saveState J c2 (s1\<lparr>canvas := Some c2\<rparr>)
          in toast ''Image added!'' s2)"

subsection \<open>Pushing the style onto the selection\<close>

definition updateSelectedObject :: "app \<Rightarrow> app" where
  "updateSelectedObject s =
     (case canvas s of
        None \<Rightarrow> s
      | Some c \<Rightarrow>
          (case canvas_getActiveObject c of
             None \<Rightarrow> s
           | Some i \<Rightarrow>
               let obj = objects c ! i;
                   obj' =
                     (if otype obj = ''i-text'' then
                        set_props obj [(''fontFamily'', Str (fontFamily s)),
                                       (''fontSize'', Num (fontSize s)),
                                       (''fill'', Str (fontColor s))]
                      else if otype obj = ''line'' then
                        set_props obj [(''stroke'', Str (elementColor s))]
                      else set_props obj [(''fill'', Str (elementColor s))]);
                   c1 = c\<lparr>objects := (objects c)[i := obj']\<rparr>;
                   c2 = canvas_renderAll c1
               in s\<lparr>canvas := Some c2\<rparr>))"

text \<open>
  The four style controls. A setter stores the value; the effect whose dependencies are the
  four style cells then runs \<^verbatim>\<open>updateSelectedObject\<close>, and only when a cell has changed.
\<close>

definition setFontFamily :: "string \<Rightarrow> app \<Rightarrow> app" where
  "setFontFamily v s =
     (if v = fontFamily s then s else updateSelectedObject (s\<lparr>fontFamily := v\<rparr>))"

definition setFontSize :: "rat \<Rightarrow> app \<Rightarrow> app" where
  "setFontSize v s =
     (if v = fontSize s then s else updateSelectedObject (s\<lparr>fontSize := v\<rparr>))"

definition setFontColor :: "string \<Rightarrow> app \<Rightarrow> app" where
  "setFontColor v s =
     (if v = fontColor s then s else updateSelectedObject (s\<lparr>fontColor := v\<rparr>))"

definition setElementColor :: "string \<Rightarrow> app \<Rightarrow> app" where
  "setElementColor v s =
     (if v = elementColor s then s else updateSelectedObject (s\<lparr>elementColor := v\<rparr>))"

subsection \<open>Layer controls\<close>

datatype direction = Up | Down

definition moveLayer :: "json_codec \<Rightarrow> direction \<Rightarrow> app \<Rightarrow> app" where
  "moveLayer J dir s =
     (case canvas s of
        None \<Rightarrow> s
      | Some c \<Rightarrow>
          (case canvas_getActiveObject c of
             None \<Rightarrow> toast ''Please select an element first!'' s
           | Some i \<Rightarrow>
               let c1 = (if dir = Up then canvas_bringForward i c
                         else canvas_sendBackwards i c);
                   s1 = (if dir = Up then toast ''Moved layer forward'' s
                         else toast ''Moved layer backward'' s);
                   c2 = canvas_renderAll c1
               in saveState J c2 (s1\<lparr>canvas := Some c2\<rparr>)))"

definition bringToFront :: "json_codec \<Rightarrow> app \<Rightarrow> app" where
  "bringToFront J s =
     (case canvas s of
        None \<Rightarrow> s
      | Some c \<Rightarrow>
          (case canvas_getActiveObject c of
             None \<Rightarrow> toast ''Please select an element first!'' s
           | Some i \<Rightarrow>
               let c1 = canvas_bringToFront i c;
                   c2 = canvas_renderAll c1;
                   s1 = saveState J c2 (s\<lparr>canvas := Some c2\<rparr>)
               in toast ''Brought to front'' s1))"

definition sendToBack :: "json_codec \<Rightarrow> app \<Rightarrow> app" where
  "sendToBack J s =
     (case canvas s of
        None \<Rightarrow> s
      | Some c \<Rightarrow>
          (case canvas_getActiveObject c of
             None \<Rightarrow> toast ''Please select an element first!'' s
           | Some i \<Rightarrow>
               let c1 = canvas_sendToBack i c;
                   c2 = canvas_renderAll c1;
                   s1 = saveState J c2 (s\<lparr>canvas := Some c2\<rparr>)
               in toast ''Sent to back'' s1))"

subsection \<open>An earlier variant of the component\<close>

text \<open>
  The repository also holds an earlier variant of the component
  (\<^verbatim>\<open>src/components/Canvas.tsx\<close>), with the same history functions and no deletion,
  element colour or layer controls. Two of its handlers differ from the ones above:
  \<^verbatim>\<open>addShape\<close> uses literal colours and does not save the state, and
  \<^verbatim>\<open>updateSelectedObject\<close> handles text objects only. It registers no listener for
  \<^verbatim>\<open>object:added\<close>.
\<close>

definition new_shape_early :: "string \<Rightarrow> fabric_object option" where
  "new_shape_early type =
     (if type = ''rectangle'' then
        Some (Rect [(''left'', Num 100), (''top'', Num 100), (''fill'', Str ''#e2e8f0''),
                    (''width'', Num 100), (''height'', Num 100)])
      else if type = ''circle'' then
        Some (Circle [(''left'', Num 100), (''top'', Num 100), (''fill'', Str ''#e2e8f0''),
                      (''radius'', Num 50)])
      else if type = ''triangle'' then
        Some (Triangle [(''left'', Num 100), (''top'', Num 100), (''fill'', Str ''#e2e8f0''),
                        (''width'', Num 100), (''height'', Num 100)])
      else if type = ''line'' then
        Some (Line (50, 100, 200, 100) [(''stroke'', Str ''#000000''), (''strokeWidth'', Num 2)])
      else None)"

definition addShape_early :: "string \<Rightarrow> app \<Rightarrow> app" where
  "addShape_early type s =
     (case canvas s of
        None \<Rightarrow> s
      | Some c \<Rightarrow>
          (case new_shape_early type of
             None \<Rightarrow> s
           | Some shape \<Rightarrow>
               let c1 = canvas_add shape c;
                   c2 = canvas_setActiveObject (length (objects c1) - 1) c1;
                   c3 = canvas_renderAll c2
               in s\<lparr>canvas := Some c3\<rparr>))"

definition updateSelectedObject_early :: "app \<Rightarrow> app" where
  "updateSelectedObject_early s =
     (case canvas s of
        None \<Rightarrow> s
      | Some c \<Rightarrow>
          (case canvas_getActiveObject c of
             None \<Rightarrow> s
           | Some i \<Rightarrow>
               if otype (objects c ! i) = ''i-text'' then
                 let obj' = set_props (objects c ! i)
                              [(''fontFamily'', Str (fontFamily s)),
                               (''fontSize'', Num (fontSize s)),
                               (''fill'', Str (fontColor s))];
                     c1 = c\<lparr>objects := (objects c)[i := obj']\<rparr>;
                     c2 = canvas_renderAll c1
                 in s\<lparr>canvas := Some c2\<rparr>
               else s))"

subsection \<open>Running handlers in sequence\<close>

text \<open>A handler called \<open>n\<close> times in a row; a throw ends the run.\<close>

fun calls :: "nat \<Rightarrow> ('a \<Rightarrow> 'a result) \<Rightarrow> 'a \<Rightarrow> 'a result" where
  "calls 0 f s = Ok s"
| "calls (Suc n) f s = (case f s of Ok s' \<Rightarrow> calls n f s' | Throws e s' \<Rightarrow> Throws e s')"

text \<open>
  A sequence of committed edits: the surface reaches each of the given states in turn, by
  whatever edits, and \<open>saveState\<close> is called on it.
\<close>

fun records :: "json_codec \<Rightarrow> fabric_canvas list \<Rightarrow> app \<Rightarrow> app" where
  "records J [] s = s"
| "records J (c # cs) s = records J cs (saveState J c (s\<lparr>canvas := Some c\<rparr>))"

text \<open>
  The codec is faithful on a surface when the text of its description is a non-empty
  string that parses back to the same description. A snapshot is well-formed when it is a
  non-empty string that parses.
\<close>

definition faithful :: "json_codec \<Rightarrow> fabric_canvas \<Rightarrow> bool" where
  "faithful J c \<longleftrightarrow>
     stringify J (canvas_toJSON c) \<noteq> [] \<and>
     parse J (stringify J (canvas_toJSON c)) = Some (canvas_toJSON c)"

definition well_formed :: "json_codec \<Rightarrow> string \<Rightarrow> bool" where
  "well_formed J t \<longleftrightarrow> t \<noteq> [] \<and> parse J t \<noteq> None"

text \<open>The state has a non-empty active selection.\<close>

definition has_selection :: "app \<Rightarrow> bool" where
  "has_selection s \<longleftrightarrow>
     (case canvas s of None \<Rightarrow> False | Some c \<Rightarrow> canvas_getActiveObject c \<noteq> None)"

text \<open>All objects of a list other than the one at position \<open>i\<close>, in their order.\<close>

definition others :: "nat \<Rightarrow> 'a list \<Rightarrow> 'a list" where
  "others i xs = take i xs @ drop (Suc i) xs"

subsection \<open>Sample values\<close>

text \<open>
  A codec given by a finite table of descriptions and their texts, standing in for the
  runtime's on the scenes of the table. Any other text does not parse.
\<close>

definition table_codec :: "(canvas_json \<times> string) list \<Rightarrow> json_codec" where
  "table_codec tbl =
     \<lparr>stringify = (\<lambda>json. case map_of tbl json of Some t \<Rightarrow> t | None \<Rightarrow> ''{}''),
      parse = (\<lambda>t. map_of (map (\<lambda>(json, t). (t, json)) tbl) t)\<rparr>"

text \<open>The surface after a rectangle was added to the empty scene, and after a circle too.\<close>

definition demo_rect :: fabric_canvas where
  "demo_rect =
     \<lparr>objects = [Rect [(''left'', Num 100), (''top'', Num 100), (''fill'', Str ''#e2e8f0''),
                       (''width'', Num 100), (''height'', Num 100)]],
      backgroundColor = ''#ffffff'', activeObject = Some 0, rendered = 1\<rparr>"

definition demo_rect_circle :: fabric_canvas where
  "demo_rect_circle =
     \<lparr>objects = [Rect [(''left'', Num 100), (''top'', Num 100), (''fill'', Str ''#e2e8f0''),
                       (''width'', Num 100), (''height'', Num 100)],
                 Circle [(''left'', Num 100), (''top'', Num 100), (''fill'', Str ''#e2e8f0''),
                         (''radius'', Num 50)]],
      backgroundColor = ''#ffffff'', activeObject = Some 1, rendered = 2\<rparr>"

text \<open>The two shapes with the rectangle on top and selected.\<close>

definition demo_circle_rect :: fabric_canvas where
  "demo_circle_rect =
     \<lparr>objects = [Circle [(''left'', Num 100), (''top'', Num 100), (''fill'', Str ''#e2e8f0''),
                         (''radius'', Num 50)],
                 Rect [(''left'', Num 100), (''top'', Num 100), (''fill'', Str ''#e2e8f0''),
                       (''width'', Num 100), (''height'', Num 100)]],
      backgroundColor = ''#ffffff'', activeObject = Some 1, rendered = 3\<rparr>"

definition demo_codec :: json_codec where
  "demo_codec =
     table_codec
       [(canvas_toJSON new_canvas, ''{objects:[]}''),
        (canvas_toJSON demo_rect, ''{objects:[rect]}''),
        (canvas_toJSON demo_rect_circle, ''{objects:[rect,circle]}''),
        (canvas_toJSON demo_circle_rect, ''{objects:[circle,rect]}'')]"

text \<open>
  Sample states: after mounting; after a rectangle and a circle were added; after one undo
  from there; the same with the rectangle selected again by a click; with at most one
  entry in \<open>past\<close> and a redo pending; with texts in the history that do not parse;
  with the rectangle, below the circle, selected by a click; and after a text was added.
\<close>

definition demo_mounted :: app where
  "demo_mounted = mount demo_codec initial_app"

definition demo_two :: app where
  "demo_two = addShape demo_codec ''circle'' (addShape demo_codec ''rectangle'' demo_mounted)"

definition demo_undone :: app where
  "demo_undone = state_of (undo demo_codec demo_two)"

definition demo_selected :: app where
  "demo_selected = demo_undone\<lparr>canvas := Some (demo_rect\<lparr>rendered := 3\<rparr>)\<rparr>"

definition demo_floor :: app where
  "demo_floor = demo_undone\<lparr>past := [''{objects:[rect]}'']\<rparr>"

definition demo_garbled :: app where
  "demo_garbled =
     demo_two\<lparr>past := [''garbage'', ''{objects:[rect,circle]}''], future := [''garbage'']\<rparr>"

definition demo_lower :: app where
  "demo_lower = demo_two\<lparr>canvas := Some (demo_rect_circle\<lparr>activeObject := Some 0\<rparr>)\<rparr>"

definition demo_text :: app where
  "demo_text = addText demo_two"

definition demo_with_text :: fabric_canvas where
  "demo_with_text =
     demo_rect_circle
       \<lparr>objects := objects demo_rect_circle @
          [IText ''Click to edit text''
             [(''left'', Num 100), (''top'', Num 100), (''fontFamily'', Str ''Arial''),
              (''fill'', Str ''#000000''), (''fontSize'', Num 20)]],
        activeObject := Some 2, rendered := 3\<rparr>"

section \<open>Properties of the history stacks\<close>

subsection \<open>Single steps\<close>

lemma saveState_past: "past (saveState J c s) = past s @ [stringify J (canvas_toJSON c)]"
  by (simp add: saveState_def)

lemma saveState_future: "future (saveState J c s) = []"
  by (simp add: saveState_def)

lemma saveState_canvas: "canvas (saveState J c s) = canvas s"
  by (simp add: saveState_def)

lemma mount_past: "past (mount J initial_app) = [stringify J (canvas_toJSON new_canvas)]"
  by (simp add: mount_def saveState_def toast_def initial_app_def Let_def)

lemma mount_future: "future (mount J initial_app) = []"
  by (simp add: mount_def saveState_def Let_def)

lemma mount_canvas: "canvas (mount J initial_app) = Some new_canvas"
  by (simp add: mount_def saveState_def toast_def Let_def)

lemma undo_floor: "length (past s) \<le> 1 \<Longrightarrow> undo J s = Ok s"
  by (simp add: undo_def split: option.split)

lemma redo_floor: "future s = [] \<Longrightarrow> redo J s = Ok s"
  by (simp add: redo_def split: option.split)

lemma undo_step:
  assumes "canvas s = Some c" "past s = ps @ [x, y]" "y \<noteq> []" "parse J x = Some j"
  shows "\<exists>s' c'. undo J s = Ok s' \<and> canvas s' = Some c' \<and> canvas_toJSON c' = j \<and>
           past s' = ps @ [x] \<and> future s' = future s @ [y]"
  using assms
  by (simp add: undo_def Let_def toast_def canvas_toJSON_def canvas_loadFromJSON_def
      canvas_renderAll_def butlast_append)

lemma redo_step:
  assumes "canvas s = Some c" "future s = fs @ [y]" "y \<noteq> []" "parse J y = Some j"
  shows "\<exists>s' c'. redo J s = Ok s' \<and> canvas s' = Some c' \<and> canvas_toJSON c' = j \<and>
           past s' = past s @ [y] \<and> future s' = fs"
  using assms
  by (simp add: redo_def Let_def toast_def canvas_toJSON_def canvas_loadFromJSON_def
      canvas_renderAll_def)

subsection \<open>Runs of undo and of redo\<close>

text \<open>
  Undoing once per entry above \<open>x\<close> moves those entries onto \<open>future\<close>, the last undone
  on top, and leaves the surface showing \<open>x\<close>.
\<close>

lemma undo_many:
  assumes "canvas s = Some c" "past s = ps @ x # rs" "list_all (well_formed J) (x # rs)"
  shows "\<exists>s' c'. calls (length rs) (undo J) s = Ok s' \<and> canvas s' = Some c' \<and>
           past s' = ps @ [x] \<and> future s' = future s @ rev rs \<and>
           (rs \<noteq> [] \<longrightarrow> parse J x = Some (canvas_toJSON c'))"
  using assms
proof (induction rs arbitrary: s c rule: rev_induct)
  case Nil
  then show ?case by simp
next
  case (snoc y rs)
  obtain qs z where split: "ps @ x # rs = qs @ [z]" and zin: "z \<in> set (x # rs)"
    and zx: "rs = [] \<longrightarrow> z = x"
  proof (cases rs rule: rev_cases)
    case Nil
    then show ?thesis using that[of ps x] by simp
  next
    case (snoc rs' w)
    then show ?thesis using that[of "ps @ x # rs'" w] by simp
  qed
  from snoc.prems(3) have gy: "well_formed J y" and gall: "list_all (well_formed J) (x # rs)"
    by simp_all
  from gall zin have gz: "well_formed J z" by (auto simp: list_all_iff)
  then obtain j where j: "parse J z = Some j" by (auto simp: well_formed_def)
  have p: "past s = qs @ [z, y]" using snoc.prems(2) split by simp
  from undo_step[OF snoc.prems(1) p _ j] gy
  obtain s1 c1 where s1: "undo J s = Ok s1" "canvas s1 = Some c1" "canvas_toJSON c1 = j"
      "past s1 = qs @ [z]" "future s1 = future s @ [y]"
    by (auto simp: well_formed_def)
  have p1: "past s1 = ps @ x # rs" using s1(4) split by simp
  from snoc.IH[OF s1(2) p1 gall]
  obtain s' c' where s': "calls (length rs) (undo J) s1 = Ok s'" "canvas s' = Some c'"
      "past s' = ps @ [x]" "future s' = future s1 @ rev rs"
      "rs \<noteq> [] \<longrightarrow> parse J x = Some (canvas_toJSON c')"
    by blast
  have shown: "parse J x = Some (canvas_toJSON c')"
  proof (cases "rs = []")
    case True
    then have "z = x" "s' = s1" using s'(1) zx by simp_all
    then show ?thesis using j s1(2,3) s'(2) by simp
  next
    case False
    then show ?thesis using s'(5) by simp
  qed
  show ?case using s1(1,5) s' shown by simp
qed

text \<open>Redoing once per entry of \<open>rs\<close> puts them back in their order and shows the last.\<close>

lemma redo_many:
  assumes "canvas s = Some c" "future s = fs @ rev rs" "list_all (well_formed J) rs"
  shows "\<exists>s' c'. calls (length rs) (redo J) s = Ok s' \<and> canvas s' = Some c' \<and>
           past s' = past s @ rs \<and> future s' = fs \<and>
           (rs \<noteq> [] \<longrightarrow> parse J (last rs) = Some (canvas_toJSON c'))"
  using assms
proof (induction rs arbitrary: s c)
  case Nil
  then show ?case by simp
next
  case (Cons y rs)
  from Cons.prems(3) have gy: "well_formed J y" and gall: "list_all (well_formed J) rs"
    by simp_all
  then obtain j where j: "parse J y = Some j" by (auto simp: well_formed_def)
  have f: "future s = (fs @ rev rs) @ [y]" using Cons.prems(2) by simp
  from redo_step[OF Cons.prems(1) f _ j] gy
  obtain s1 c1 where s1: "redo J s = Ok s1" "canvas s1 = Some c1" "canvas_toJSON c1 = j"
      "past s1 = past s @ [y]" "future s1 = fs @ rev rs"
    by (auto simp: well_formed_def)
  from Cons.IH[OF s1(2) s1(5) gall]
  obtain s' c' where s': "calls (length rs) (redo J) s1 = Ok s'" "canvas s' = Some c'"
      "past s' = past s1 @ rs" "future s' = fs"
      "rs \<noteq> [] \<longrightarrow> parse J (last rs) = Some (canvas_toJSON c')"
    by blast
  have "parse J (last (y # rs)) = Some (canvas_toJSON c')"
  proof (cases "rs = []")
    case True
    then have "s' = s1" using s'(1) by simp
    then show ?thesis using True j s1(2,3) s'(2) by simp
  next
    case False
    then show ?thesis using s'(5) by simp
  qed
  then show ?case using s1(1,4) s' by simp
qed

lemma records_past:
  "past (records J cs s) = past s @ map (\<lambda>c. stringify J (canvas_toJSON c)) cs"
  by (induction cs arbitrary: s) (simp_all add: saveState_def)

lemma records_future: "future (records J cs s) = (if cs = [] then future s else [])"
  by (induction cs arbitrary: s) (simp_all add: saveState_def)

lemma records_canvas: "canvas (records J cs s) = (if cs = [] then canvas s else Some (last cs))"
  by (induction cs arbitrary: s) (simp_all add: saveState_def)

lemma faithful_well_formed: "faithful J c \<Longrightarrow> well_formed J (stringify J (canvas_toJSON c))"
  by (simp add: faithful_def well_formed_def)

text \<open>
  C1. Undo and redo are inverses over the history stacks. The history is initialized by
  the mount effect, which records the snapshot S0 of the empty scene. Then N edits are
  recorded, on the surface states \<open>cs\<close>, giving the snapshots S1 to SN. Where the codec is
  faithful on these surfaces, N calls of undo followed by N calls of redo all return, the
  surface then has the description captured in SN, \<open>past\<close> holds S0 to SN in order, and
  \<open>future\<close> is empty.
\<close>

theorem undo_redo_inverse:
  assumes "list_all (faithful J) (new_canvas # cs)"
  shows "\<exists>s1 s2 c2.
           calls (length cs) (undo J) (records J cs (mount J initial_app)) = Ok s1 \<and>
           calls (length cs) (redo J) s1 = Ok s2 \<and>
           canvas s2 = Some c2 \<and>
           canvas_toJSON c2 = canvas_toJSON (last (new_canvas # cs)) \<and>
           past s2 = map (\<lambda>c. stringify J (canvas_toJSON c)) (new_canvas # cs) \<and>
           future s2 = []"
proof -
  let ?ser = "\<lambda>c. stringify J (canvas_toJSON c)"
  let ?s = "records J cs (mount J initial_app)"
  have g0: "list_all (well_formed J) (?ser new_canvas # map ?ser cs)"
    using assms by (auto simp: list_all_iff faithful_well_formed)
  have pst: "past ?s = [] @ ?ser new_canvas # map ?ser cs"
    by (simp add: records_past mount_past)
  have fut: "future ?s = []"
    by (simp add: records_future mount_future)
  obtain c where cv: "canvas ?s = Some c" and cl: "c = last (new_canvas # cs)"
    by (simp add: records_canvas mount_canvas)
  from undo_many[OF cv pst g0]
  obtain s1 c1 where s1: "calls (length cs) (undo J) ?s = Ok s1" "canvas s1 = Some c1"
      "past s1 = [?ser new_canvas]" "future s1 = rev (map ?ser cs)"
    using fut by auto
  have g1: "list_all (well_formed J) (map ?ser cs)" using g0 by simp
  have f1: "future s1 = [] @ rev (map ?ser cs)" using s1(4) by simp
  from redo_many[OF s1(2) f1 g1]
  obtain s2 c2 where s2: "calls (length cs) (redo J) s1 = Ok s2" "canvas s2 = Some c2"
      "past s2 = past s1 @ map ?ser cs" "future s2 = []"
      "map ?ser cs \<noteq> [] \<longrightarrow> parse J (last (map ?ser cs)) = Some (canvas_toJSON c2)"
    by auto
  have "canvas_toJSON c2 = canvas_toJSON (last (new_canvas # cs))"
  proof (cases "cs = []")
    case True
    then have "s1 = ?s" "s2 = s1" using s1(1) s2(1) by simp_all
    then show ?thesis using True s2(2) cv cl by simp
  next
    case False
    then have "parse J (?ser (last cs)) = Some (canvas_toJSON c2)"
      using s2(5) by (simp add: last_map)
    moreover have "faithful J (last cs)" using assms False by (simp add: list_all_iff)
    ultimately show ?thesis using False by (simp add: faithful_def)
  qed
  then show ?thesis using s1(1,3) s2 by simp
qed

theorem undo_redo_inverse_witness:
  "list_all (faithful demo_codec) (new_canvas # [demo_rect, demo_rect_circle]) \<and>
   (\<exists>s1 s2 c2.
      calls 2 (undo demo_codec)
        (records demo_codec [demo_rect, demo_rect_circle] (mount demo_codec initial_app))
        = Ok s1 \<and>
      calls 2 (redo demo_codec) s1 = Ok s2 \<and>
      canvas s2 = Some c2 \<and>
      canvas_toJSON c2 = canvas_toJSON demo_rect_circle \<and>
      past s2 = [''{objects:[]}'', ''{objects:[rect]}'', ''{objects:[rect,circle]}''] \<and>
      future s2 = [])"
proof -
  have h: "list_all (faithful demo_codec) (new_canvas # [demo_rect, demo_rect_circle])"
    by (simp add: faithful_def demo_codec_def table_codec_def canvas_toJSON_def
        new_canvas_def demo_rect_def demo_rect_circle_def Rect_def Circle_def)
  have e: "map (\<lambda>c. stringify demo_codec (canvas_toJSON c))
             (new_canvas # [demo_rect, demo_rect_circle])
           = [''{objects:[]}'', ''{objects:[rect]}'', ''{objects:[rect,circle]}'']"
    by (simp add: demo_codec_def table_codec_def canvas_toJSON_def
        new_canvas_def demo_rect_def demo_rect_circle_def Rect_def Circle_def)
  have l: "length [demo_rect, demo_rect_circle] = 2" by simp
  have lst: "last (new_canvas # [demo_rect, demo_rect_circle]) = demo_rect_circle" by simp
  show ?thesis using h undo_redo_inverse[OF h] unfolding e l lst by (rule conjI)
qed

subsection \<open>Evaluating the sample states\<close>

lemmas demo_defs =
  demo_mounted_def demo_two_def demo_undone_def demo_selected_def demo_floor_def
  demo_garbled_def demo_codec_def table_codec_def demo_rect_def demo_rect_circle_def
  demo_circle_rect_def

lemmas model_defs =
  mount_def saveState_def toast_def initial_app_def Let_def addShape_def new_shape_def
  canvas_add_def canvas_setActiveObject_def canvas_renderAll_def on_object_added_def
  canvas_toJSON_def new_canvas_def Rect_def Circle_def Triangle_def Line_def IText_def
  undo_def redo_def canvas_loadFromJSON_def canvas_getActiveObject_def

subsection \<open>Initialization and the floors\<close>

text \<open>
  C5. After the mount effect on the component's initial state, \<open>past\<close> holds exactly one
  entry, the snapshot of the empty scene, \<open>future\<close> is empty, and an immediate undo
  returns the state as it is: surface and both stacks unchanged.
\<close>

theorem init_history:
  "past (mount J initial_app) = [stringify J (canvas_toJSON new_canvas)] \<and>
   objects new_canvas = [] \<and>
   future (mount J initial_app) = [] \<and>
   undo J (mount J initial_app) = Ok (mount J initial_app)"
  by (simp add: mount_past mount_future undo_floor new_canvas_def)

theorem init_history_witness:
  "past (mount demo_codec initial_app) = [''{objects:[]}''] \<and>
   future (mount demo_codec initial_app) = [] \<and>
   undo demo_codec (mount demo_codec initial_app) = Ok (mount demo_codec initial_app)"
proof -
  have e: "stringify demo_codec (canvas_toJSON new_canvas) = ''{objects:[]}''"
    by (simp add: demo_defs canvas_toJSON_def new_canvas_def)
  show ?thesis using init_history[of demo_codec] unfolding e by simp
qed

text \<open>
  C10. A floored undo or redo changes nothing. With at most one entry in \<open>past\<close>, undo
  returns the very state it was given, so the surface, \<open>past\<close> and \<open>future\<close> are
  untouched and pending redo entries survive. With \<open>future\<close> empty, redo does the same.
\<close>

theorem floored_undo_redo_noop:
  "(length (past s) \<le> 1 \<longrightarrow> undo J s = Ok s) \<and> (future t = [] \<longrightarrow> redo J t = Ok t)"
  by (simp add: undo_floor redo_floor)

theorem floored_undo_redo_noop_witness:
  "length (past demo_floor) \<le> 1 \<and> future demo_floor = [''{objects:[rect,circle]}''] \<and>
   undo demo_codec demo_floor = Ok demo_floor \<and>
   future demo_mounted = [] \<and> redo demo_codec demo_mounted = Ok demo_mounted"
proof -
  have p: "length (past demo_floor) \<le> 1" by (simp add: demo_floor_def)
  have f: "future demo_floor = [''{objects:[rect,circle]}'']"
    by (simp add: demo_defs model_defs)
  have m: "future demo_mounted = []" by (simp add: demo_mounted_def mount_future)
  show ?thesis
    using p f m floored_undo_redo_noop[of demo_floor demo_codec demo_mounted] by simp
qed

subsection \<open>A restore that fails\<close>

text \<open>
  C4, as the claim states it, fails: a restore failure is not transactional. In the sample
  state the entry below the top of \<open>past\<close> does not parse; undo throws, and by then the top
  of \<open>past\<close> has moved onto \<open>future\<close>.
\<close>

theorem restore_failure_counterexample:
  "undo demo_codec demo_garbled = Throws SyntaxError (state_of (undo demo_codec demo_garbled)) \<and>
   past demo_garbled = [''garbage'', ''{objects:[rect,circle]}''] \<and>
   past (state_of (undo demo_codec demo_garbled)) = [''garbage''] \<and>
   future demo_garbled = [''garbage''] \<and>
   future (state_of (undo demo_codec demo_garbled)) = [''garbage'', ''{objects:[rect,circle]}'']"
  by (simp add: demo_defs model_defs)

text \<open>
  C4, amended. When undo or redo throws because the snapshot to restore does not parse, the
  surface is as before the call, since \<^verbatim>\<open>loadFromJSON\<close> was never entered, and nothing
  else of the state changed except the stacks: undo has moved the top of \<open>past\<close> onto
  \<open>future\<close>, redo has moved the top of \<open>future\<close> onto \<open>past\<close>, and neither move is
  rolled back.
\<close>

theorem restore_failure_keeps_stack_moves:
  "(undo J s = Throws e s' \<longrightarrow>
      s' = s\<lparr>past := butlast (past s), future := future s @ [last (past s)]\<rparr> \<and>
      canvas s' = canvas s) \<and>
   (redo J s = Throws e t' \<longrightarrow>
      t' = s\<lparr>future := butlast (future s), past := past s @ [last (future s)]\<rparr> \<and>
      canvas t' = canvas s)"
  by (auto simp: undo_def redo_def Let_def split: option.splits if_splits)

theorem restore_failure_keeps_stack_moves_witness:
  "undo demo_codec demo_garbled =
     Throws SyntaxError
       (demo_garbled\<lparr>past := [''garbage''],
                     future := [''garbage'', ''{objects:[rect,circle]}'']\<rparr>) \<and>
   redo demo_codec demo_garbled =
     Throws SyntaxError
       (demo_garbled\<lparr>future := [],
                     past := [''garbage'', ''{objects:[rect,circle]}'', ''garbage'']\<rparr>) \<and>
   canvas (demo_garbled\<lparr>past := [''garbage''],
                        future := [''garbage'', ''{objects:[rect,circle]}'']\<rparr>)
     = canvas demo_garbled"
proof -
  have u: "undo demo_codec demo_garbled =
     Throws SyntaxError
       (demo_garbled\<lparr>past := [''garbage''],
                     future := [''garbage'', ''{objects:[rect,circle]}'']\<rparr>)"
    by (simp add: demo_defs model_defs)
  have r: "redo demo_codec demo_garbled =
     Throws SyntaxError
       (demo_garbled\<lparr>future := [],
                     past := [''garbage'', ''{objects:[rect,circle]}'', ''garbage'']\<rparr>)"
    by (simp add: demo_defs model_defs)
  show ?thesis
    using u r restore_failure_keeps_stack_moves[of demo_codec demo_garbled SyntaxError
        "demo_garbled\<lparr>past := [''garbage''],
                      future := [''garbage'', ''{objects:[rect,circle]}'']\<rparr>"
        "demo_garbled\<lparr>future := [],
                      past := [''garbage'', ''{objects:[rect,circle]}'', ''garbage'']\<rparr>"]
    by simp
qed

section \<open>Properties of the editing handlers\<close>

lemma getActive_Some:
  "canvas_getActiveObject c = Some i \<longleftrightarrow> activeObject c = Some i \<and> i < length (objects c)"
  by (auto simp: canvas_getActiveObject_def split: option.splits)

lemma getActive_None:
  "canvas_getActiveObject c = None \<longleftrightarrow> (\<forall>i. activeObject c = Some i \<longrightarrow> length (objects c) \<le> i)"
  by (auto simp: canvas_getActiveObject_def split: option.splits)

subsection \<open>Recording clears the redo stack\<close>

text \<open>
  C2. Every call of \<open>saveState\<close> leaves \<open>future\<close> empty, so a redo right after it
  changes nothing. That holds for each handler that records: shape creation with one of
  the four kinds, the completion of an image, the \<^verbatim>\<open>object:modified\<close> listener, and, with
  an object selected, deletion and the four layer moves. In particular after record, undo,
  record, whatever the undo did, \<open>future\<close> is empty.
\<close>

theorem record_clears_future:
  "future (saveState J c s) = [] \<and>
   redo J (saveState J c s) = Ok (saveState J c s) \<and>
   (canvas s \<noteq> None \<and> type \<in> {''rectangle'', ''circle'', ''triangle'', ''line''} \<longrightarrow>
      future (addShape J type s) = []) \<and>
   (canvas s \<noteq> None \<longrightarrow>
      future (image_onload J img s) = [] \<and> future (on_object_modified J s) = []) \<and>
   (has_selection s \<longrightarrow>
      future (deleteSelected J s) = [] \<and> future (moveLayer J dir s) = [] \<and>
      future (bringToFront J s) = [] \<and> future (sendToBack J s) = []) \<and>
   future (saveState J c' (state_of (undo J (saveState J c s)))) = []"
proof -
  have a: "canvas s \<noteq> None \<and> type \<in> {''rectangle'', ''circle'', ''triangle'', ''line''} \<longrightarrow>
      future (addShape J type s) = []"
    by (auto simp: addShape_def new_shape_def saveState_def Let_def)
  have b: "canvas s \<noteq> None \<longrightarrow>
      future (image_onload J img s) = [] \<and> future (on_object_modified J s) = []"
    by (auto simp: image_onload_def on_object_modified_def saveState_def toast_def Let_def)
  have c: "has_selection s \<longrightarrow>
      future (deleteSelected J s) = [] \<and> future (moveLayer J dir s) = [] \<and>
      future (bringToFront J s) = [] \<and> future (sendToBack J s) = []"
    by (auto simp: has_selection_def deleteSelected_def moveLayer_def bringToFront_def
        sendToBack_def saveState_def toast_def Let_def split: option.splits)
  show ?thesis using a b c by (simp add: saveState_future redo_floor)
qed

theorem record_clears_future_witness:
  "future demo_selected = [''{objects:[rect,circle]}''] \<and>
   canvas demo_selected \<noteq> None \<and> has_selection demo_selected \<and>
   future (saveState demo_codec demo_rect demo_selected) = [] \<and>
   redo demo_codec (saveState demo_codec demo_rect demo_selected)
     = Ok (saveState demo_codec demo_rect demo_selected) \<and>
   future (addShape demo_codec ''circle'' demo_selected) = [] \<and>
   future (image_onload demo_codec (Rect []) demo_selected) = [] \<and>
   future (on_object_modified demo_codec demo_selected) = [] \<and>
   future (deleteSelected demo_codec demo_selected) = [] \<and>
   future (moveLayer demo_codec Down demo_selected) = [] \<and>
   future (bringToFront demo_codec demo_selected) = [] \<and>
   future (sendToBack demo_codec demo_selected) = [] \<and>
   future (state_of (undo demo_codec (saveState demo_codec demo_rect_circle demo_selected)))
     = [''{objects:[rect,circle]}''] \<and>
   future (saveState demo_codec demo_rect
            (state_of (undo demo_codec (saveState demo_codec demo_rect_circle demo_selected)))) = []"
proof -
  have f: "future demo_selected = [''{objects:[rect,circle]}'']"
    by (simp add: demo_defs model_defs)
  have cv: "canvas demo_selected \<noteq> None" by (simp add: demo_selected_def)
  have sel: "has_selection demo_selected"
    by (simp add: has_selection_def demo_selected_def demo_rect_def canvas_getActiveObject_def)
  have u: "future (state_of (undo demo_codec (saveState demo_codec demo_rect_circle demo_selected)))
     = [''{objects:[rect,circle]}'']"
    by (simp add: demo_defs model_defs)
  show ?thesis
    using f cv sel u
      record_clears_future[of demo_codec demo_rect demo_selected "''circle''" "Rect []" Down demo_rect]
      record_clears_future[of demo_codec demo_rect_circle demo_selected "''circle''" "Rect []" Down demo_rect]
    by simp
qed

subsection \<open>Handlers that need a selection\<close>

text \<open>
  C6, as the claim states it, fails for deletion: with nothing selected,
  \<open>deleteSelected\<close> shows no notice.
\<close>

theorem delete_without_selection_counterexample:
  "canvas demo_mounted = Some new_canvas \<and> canvas_getActiveObject new_canvas = None \<and>
   toasts (deleteSelected demo_codec demo_mounted) = toasts demo_mounted"
  by (simp add: demo_defs model_defs deleteSelected_def)

text \<open>
  C6, amended. On a mounted canvas with nothing selected, \<open>moveLayer\<close> in either
  direction, \<open>bringToFront\<close> and \<open>sendToBack\<close> show the notice
  \<^verbatim>\<open>Please select an element first!\<close> and change nothing else: the object list, \<open>past\<close>
  and \<open>future\<close> are as before, and nothing is recorded. \<open>deleteSelected\<close> changes
  nothing at all and shows no notice.
\<close>

theorem no_selection_leaves_history:
  assumes "canvas s = Some c" "canvas_getActiveObject c = None"
  shows "moveLayer J dir s = s\<lparr>toasts := toasts s @ [''Please select an element first!'']\<rparr> \<and>
         bringToFront J s = s\<lparr>toasts := toasts s @ [''Please select an element first!'']\<rparr> \<and>
         sendToBack J s = s\<lparr>toasts := toasts s @ [''Please select an element first!'']\<rparr> \<and>
         deleteSelected J s = s"
  using assms
  by (simp add: moveLayer_def bringToFront_def sendToBack_def deleteSelected_def toast_def)

theorem no_selection_leaves_history_witness:
  "canvas demo_mounted = Some new_canvas \<and> canvas_getActiveObject new_canvas = None \<and>
   moveLayer demo_codec Up demo_mounted
     = demo_mounted\<lparr>toasts := [''Canvas ready!'', ''Please select an element first!'']\<rparr> \<and>
   bringToFront demo_codec demo_mounted
     = demo_mounted\<lparr>toasts := [''Canvas ready!'', ''Please select an element first!'']\<rparr> \<and>
   sendToBack demo_codec demo_mounted
     = demo_mounted\<lparr>toasts := [''Canvas ready!'', ''Please select an element first!'']\<rparr> \<and>
   deleteSelected demo_codec demo_mounted = demo_mounted"
proof -
  have cv: "canvas demo_mounted = Some new_canvas" by (simp add: demo_mounted_def mount_canvas)
  have ns: "canvas_getActiveObject new_canvas = None"
    by (simp add: canvas_getActiveObject_def new_canvas_def)
  have p: "toasts demo_mounted = [''Canvas ready!'']"
    by (simp add: demo_defs model_defs)
  show ?thesis using cv ns no_selection_leaves_history[OF cv ns, of demo_codec Up] unfolding p
    by simp
qed

subsection \<open>Text creation\<close>

text \<open>
  C9. \<open>addText\<close> leaves \<open>past\<close> and \<open>future\<close> as they are: the text is not recorded
  when it is created. On a mounted canvas it appends an editable text object with the
  literal content \<^verbatim>\<open>Click to edit text\<close> at (100, 100) and the style's font family, font
  colour and font size, and selects it.
\<close>

theorem addText_defers_record:
  "past (addText s) = past s \<and> future (addText s) = future s \<and>
   (canvas s = Some c \<longrightarrow>
      (\<exists>c'. canvas (addText s) = Some c' \<and>
         objects c' = objects c @
           [\<lparr>otype = ''i-text'',
             props = [(''text'', Str ''Click to edit text''), (''left'', Num 100),
                      (''top'', Num 100), (''fontFamily'', Str (fontFamily s)),
                      (''fill'', Str (fontColor s)), (''fontSize'', Num (fontSize s))]\<rparr>] \<and>
         canvas_getActiveObject c' = Some (length (objects c)) \<and>
         backgroundColor c' = backgroundColor c))"
  by (simp add: addText_def Let_def on_object_added_def toast_def canvas_add_def IText_def
      canvas_setActiveObject_def canvas_renderAll_def canvas_getActiveObject_def
      split: option.split)

theorem addText_defers_record_witness:
  "canvas demo_undone = Some (canvas_renderAll (canvas_loadFromJSON (canvas_toJSON demo_rect) demo_rect_circle)) \<and>
   past (addText demo_undone) = [''{objects:[]}'', ''{objects:[rect]}''] \<and>
   future (addText demo_undone) = [''{objects:[rect,circle]}''] \<and>
   map_option canvas_getActiveObject (canvas (addText demo_undone)) = Some (Some 1) \<and>
   map_option (\<lambda>c. map otype (objects c)) (canvas (addText demo_undone)) = Some [''rect'', ''i-text'']"
proof -
  have cv: "canvas demo_undone = Some (canvas_renderAll (canvas_loadFromJSON (canvas_toJSON demo_rect) demo_rect_circle))"
    by (simp add: demo_defs model_defs)
  have p: "past demo_undone = [''{objects:[]}'', ''{objects:[rect]}'']"
     "future demo_undone = [''{objects:[rect,circle]}'']"
    by (simp_all add: demo_defs model_defs)
  show ?thesis
    using cv p addText_defers_record[of demo_undone "canvas_renderAll (canvas_loadFromJSON (canvas_toJSON demo_rect) demo_rect_circle)"]
    by (auto simp: canvas_renderAll_def canvas_loadFromJSON_def canvas_toJSON_def demo_rect_def Rect_def)
qed

subsection \<open>Shape creation\<close>

text \<open>
  C3. On a mounted canvas, \<open>addShape\<close> with one of the four kinds constructs the object
  with that kind's literal default geometry: rectangle and triangle 100 by 100 at
  (100, 100), circle of radius 50 at (100, 100), line from (50, 100) to (200, 100) of
  stroke width 2. The rectangle, circle and triangle take the style's element colour as
  fill, the line as stroke. The object is appended to the surface and becomes the active
  selection, and the new surface is recorded: \<open>past\<close> grows by exactly one snapshot and
  \<open>future\<close> is empty.
\<close>

theorem addShape_creates_and_records:
  assumes "canvas s = Some c"
    and "type \<in> {''rectangle'', ''circle'', ''triangle'', ''line''}"
  shows "\<exists>shape c'.
           (type = ''rectangle'' \<longrightarrow>
              shape = \<lparr>otype = ''rect'',
                       props = [(''left'', Num 100), (''top'', Num 100),
                                (''fill'', Str (elementColor s)),
                                (''width'', Num 100), (''height'', Num 100)]\<rparr>) \<and>
           (type = ''circle'' \<longrightarrow>
              shape = \<lparr>otype = ''circle'',
                       props = [(''left'', Num 100), (''top'', Num 100),
                                (''fill'', Str (elementColor s)), (''radius'', Num 50)]\<rparr>) \<and>
           (type = ''triangle'' \<longrightarrow>
              shape = \<lparr>otype = ''triangle'',
                       props = [(''left'', Num 100), (''top'', Num 100),
                                (''fill'', Str (elementColor s)),
                                (''width'', Num 100), (''height'', Num 100)]\<rparr>) \<and>
           (type = ''line'' \<longrightarrow>
              shape = \<lparr>otype = ''line'',
                       props = [(''x1'', Num 50), (''y1'', Num 100), (''x2'', Num 200),
                                (''y2'', Num 100), (''stroke'', Str (elementColor s)),
                                (''strokeWidth'', Num 2)]\<rparr>) \<and>
           canvas (addShape J type s) = Some c' \<and>
           objects c' = objects c @ [shape] \<and>
           backgroundColor c' = backgroundColor c \<and>
           canvas_getActiveObject c' = Some (length (objects c)) \<and>
           past (addShape J type s) = past s @ [stringify J (canvas_toJSON c')] \<and>
           length (past (addShape J type s)) = length (past s) + 1 \<and>
           future (addShape J type s) = []"
  using assms
  by (auto simp: addShape_def new_shape_def saveState_def Let_def on_object_added_def
      toast_def canvas_add_def canvas_setActiveObject_def canvas_renderAll_def
      canvas_getActiveObject_def Rect_def Circle_def Triangle_def Line_def)

theorem addShape_creates_and_records_witness:
  "canvas demo_mounted = Some new_canvas \<and>
   length (past demo_mounted) = 1 \<and>
   length (past (addShape demo_codec ''rectangle'' demo_mounted)) = 2 \<and>
   past (addShape demo_codec ''rectangle'' demo_mounted) = [''{objects:[]}'', ''{objects:[rect]}''] \<and>
   future (addShape demo_codec ''rectangle'' demo_mounted) = [] \<and>
   canvas (addShape demo_codec ''rectangle'' demo_mounted) = Some demo_rect"
proof -
  have cv: "canvas demo_mounted = Some new_canvas" by (simp add: demo_mounted_def mount_canvas)
  have ty: "''rectangle'' \<in> {''rectangle'', ''circle'', ''triangle'', ''line''}" by simp
  have p: "past demo_mounted = [''{objects:[]}'']" by (simp add: demo_defs model_defs)
  have e: "stringify demo_codec (canvas_toJSON demo_rect) = ''{objects:[rect]}''"
    by (simp add: demo_defs model_defs)
  have c: "canvas (addShape demo_codec ''rectangle'' demo_mounted) = Some demo_rect"
    by (simp add: demo_defs model_defs)
  show ?thesis
    using cv p e c addShape_creates_and_records[OF cv ty, of demo_codec]
    by auto
qed

text \<open>
  Scenario A of the specification on the sample codec: two shapes added after mounting give
  three entries in \<open>past\<close>, one undo leaves only the rectangle, one redo brings back both.
\<close>

lemma scenario_A:
  "length (past demo_two) = 3 \<and>
   map_option objects (canvas (state_of (undo demo_codec demo_two))) = Some (objects demo_rect) \<and>
   map_option objects (canvas (state_of (redo demo_codec (state_of (undo demo_codec demo_two)))))
     = Some (objects demo_rect_circle)"
  by (simp add: demo_defs model_defs)

text \<open>The earlier variant adds the shape and leaves the history alone.\<close>

lemma addShape_early_history:
  "past (addShape_early type s) = past s \<and> future (addShape_early type s) = future s"
  by (simp add: addShape_early_def Let_def split: option.split)

subsection \<open>The style push\<close>

lemma map_of_set_props:
  "map_of (props (set_props obj kvs)) = map_of (props obj) ++ map_of (rev kvs)"
proof -
  have "map_of (fold (\<lambda>(k, v). AList.update k v) kvs ps) = map_of ps ++ map_of (rev kvs)" for ps
  proof (induction kvs arbitrary: ps)
    case Nil
    then show ?case by simp
  next
    case (Cons kv kvs)
    obtain k v where kv: "kv = (k, v)" by (cases kv)
    show ?case
      by (simp add: Cons.IH kv AList.update_conv' map_add_def fun_eq_iff split: option.split)
  qed
  then show ?thesis by (simp add: set_props_def)
qed

lemma otype_set_props: "otype (set_props obj kvs) = otype obj"
  by (simp add: set_props_def)

text \<open>
  C7. With an object selected, \<open>updateSelectedObject\<close> changes that object only, and on
  it exactly the fields of its kind: a text object gets the font family, the font size and
  the font colour as fill; a line gets the element colour as stroke; any other object gets
  the element colour as fill. One render is triggered and the history stacks stay as they
  are. Each of the four style setters, called with a value that differs from the stored
  one, stores it and runs this push.
\<close>

theorem style_push_fields:
  assumes "canvas s = Some c" "canvas_getActiveObject c = Some i"
  shows "\<exists>c' obj'.
           canvas (updateSelectedObject s) = Some c' \<and>
           objects c' = (objects c)[i := obj'] \<and>
           otype obj' = otype (objects c ! i) \<and>
           map_of (props obj') =
             (if otype (objects c ! i) = ''i-text'' then
                (map_of (props (objects c ! i)))
                  (''fontFamily'' \<mapsto> Str (fontFamily s), ''fontSize'' \<mapsto> Num (fontSize s),
                   ''fill'' \<mapsto> Str (fontColor s))
              else if otype (objects c ! i) = ''line'' then
                (map_of (props (objects c ! i)))(''stroke'' \<mapsto> Str (elementColor s))
              else (map_of (props (objects c ! i)))(''fill'' \<mapsto> Str (elementColor s))) \<and>
           rendered c' = Suc (rendered c) \<and>
           activeObject c' = activeObject c \<and>
           backgroundColor c' = backgroundColor c \<and>
           past (updateSelectedObject s) = past s \<and>
           future (updateSelectedObject s) = future s \<and>
           (v1 \<noteq> fontFamily t \<longrightarrow>
              setFontFamily v1 t = updateSelectedObject (t\<lparr>fontFamily := v1\<rparr>)) \<and>
           (v2 \<noteq> fontSize t \<longrightarrow>
              setFontSize v2 t = updateSelectedObject (t\<lparr>fontSize := v2\<rparr>)) \<and>
           (v3 \<noteq> fontColor t \<longrightarrow>
              setFontColor v3 t = updateSelectedObject (t\<lparr>fontColor := v3\<rparr>)) \<and>
           (v4 \<noteq> elementColor t \<longrightarrow>
              setElementColor v4 t = updateSelectedObject (t\<lparr>elementColor := v4\<rparr>))"
proof -
  let ?obj = "objects c ! i"
  let ?obj' = "if otype ?obj = ''i-text'' then
                 set_props ?obj [(''fontFamily'', Str (fontFamily s)),
                                 (''fontSize'', Num (fontSize s)),
                                 (''fill'', Str (fontColor s))]
               else if otype ?obj = ''line'' then
                 set_props ?obj [(''stroke'', Str (elementColor s))]
               else set_props ?obj [(''fill'', Str (elementColor s))]"
  let ?c' = "canvas_renderAll (c\<lparr>objects := (objects c)[i := ?obj']\<rparr>)"
  have u: "updateSelectedObject s = s\<lparr>canvas := Some ?c'\<rparr>"
    using assms by (simp add: updateSelectedObject_def Let_def)
  have m: "map_of (props ?obj') =
             (if otype ?obj = ''i-text'' then
                (map_of (props ?obj))
                  (''fontFamily'' \<mapsto> Str (fontFamily s), ''fontSize'' \<mapsto> Num (fontSize s),
                   ''fill'' \<mapsto> Str (fontColor s))
              else if otype ?obj = ''line'' then
                (map_of (props ?obj))(''stroke'' \<mapsto> Str (elementColor s))
              else (map_of (props ?obj))(''fill'' \<mapsto> Str (elementColor s)))"
    by (simp add: set_props_def AList.update_conv')
  have t: "otype ?obj' = otype ?obj" by (simp add: otype_set_props)
  have setters:
    "(v1 \<noteq> fontFamily t \<longrightarrow>
              setFontFamily v1 t = updateSelectedObject (t\<lparr>fontFamily := v1\<rparr>)) \<and>
     (v2 \<noteq> fontSize t \<longrightarrow>
              setFontSize v2 t = updateSelectedObject (t\<lparr>fontSize := v2\<rparr>)) \<and>
     (v3 \<noteq> fontColor t \<longrightarrow>
              setFontColor v3 t = updateSelectedObject (t\<lparr>fontColor := v3\<rparr>)) \<and>
     (v4 \<noteq> elementColor t \<longrightarrow>
              setElementColor v4 t = updateSelectedObject (t\<lparr>elementColor := v4\<rparr>))"
    by (simp add: setFontFamily_def setFontSize_def setFontColor_def setElementColor_def)
  have "canvas (updateSelectedObject s) = Some ?c' \<and>
        objects ?c' = (objects c)[i := ?obj'] \<and>
        rendered ?c' = Suc (rendered c) \<and> activeObject ?c' = activeObject c \<and>
        backgroundColor ?c' = backgroundColor c \<and>
        past (updateSelectedObject s) = past s \<and> future (updateSelectedObject s) = future s"
    by (simp add: u canvas_renderAll_def)
  with m t setters show ?thesis by blast
qed


theorem style_push_fields_witness:
  "canvas (demo_text\<lparr>fontColor := ''#ff0000''\<rparr>) = Some demo_with_text \<and>
   canvas_getActiveObject demo_with_text = Some 2 \<and>
   ''#ff0000'' \<noteq> fontColor demo_text \<and>
   setFontColor ''#ff0000'' demo_text = updateSelectedObject (demo_text\<lparr>fontColor := ''#ff0000''\<rparr>) \<and>
   past (setFontColor ''#ff0000'' demo_text) = past demo_text \<and>
   future (setFontColor ''#ff0000'' demo_text) = future demo_text \<and>
   map_option (\<lambda>c. props (objects c ! 2)) (canvas (setFontColor ''#ff0000'' demo_text))
     = Some [(''text'', Str ''Click to edit text''), (''left'', Num 100), (''top'', Num 100),
             (''fontFamily'', Str ''Arial''), (''fill'', Str ''#ff0000''), (''fontSize'', Num 20)] \<and>
   map_option rendered (canvas (setFontColor ''#ff0000'' demo_text)) = Some 4"
proof -
  have cv: "canvas (demo_text\<lparr>fontColor := ''#ff0000''\<rparr>) = Some demo_with_text"
    by (simp add: demo_text_def demo_with_text_def addText_def demo_defs model_defs)
  have sel: "canvas_getActiveObject demo_with_text = Some 2"
    by (simp add: demo_with_text_def demo_defs canvas_getActiveObject_def)
  have ne: "''#ff0000'' \<noteq> fontColor demo_text"
    by (simp add: demo_text_def addText_def demo_defs model_defs)
  have pf: "past (demo_text\<lparr>fontColor := ''#ff0000''\<rparr>) = past demo_text"
    "future (demo_text\<lparr>fontColor := ''#ff0000''\<rparr>) = future demo_text"
    by simp_all
  have ev: "map_option (\<lambda>c. props (objects c ! 2))
              (canvas (updateSelectedObject (demo_text\<lparr>fontColor := ''#ff0000''\<rparr>)))
     = Some [(''text'', Str ''Click to edit text''), (''left'', Num 100), (''top'', Num 100),
             (''fontFamily'', Str ''Arial''), (''fill'', Str ''#ff0000''), (''fontSize'', Num 20)]"
    by (simp add: updateSelectedObject_def cv sel demo_with_text_def demo_defs model_defs
        set_props_def demo_text_def addText_def)
  let ?s = "demo_text\<lparr>fontColor := ''#ff0000''\<rparr>"
  from style_push_fields[OF cv sel, of "''Arial''" demo_text 20 "''#ff0000''" "''#e2e8f0''"]
  have t: "past (updateSelectedObject ?s) = past ?s \<and>
           future (updateSelectedObject ?s) = future ?s \<and>
           (''#ff0000'' \<noteq> fontColor demo_text \<longrightarrow>
              setFontColor ''#ff0000'' demo_text = updateSelectedObject ?s)"
    by (elim exE conjE, intro conjI) assumption+
  have eq: "setFontColor ''#ff0000'' demo_text = updateSelectedObject ?s"
    using t ne by blast
  have r4: "map_option rendered (canvas (updateSelectedObject ?s)) = Some 4"
    by (simp add: updateSelectedObject_def cv sel demo_with_text_def demo_defs model_defs
        set_props_def demo_text_def addText_def)
  show ?thesis unfolding eq using cv sel ne ev r4 t by simp
qed

text \<open>The earlier variant pushes nothing onto an object that is not a text.\<close>

lemma updateSelectedObject_early_shape:
  assumes "canvas s = Some c" "canvas_getActiveObject c = Some i"
    and "otype (objects c ! i) \<noteq> ''i-text''"
  shows "updateSelectedObject_early s = s"
  using assms by (simp add: updateSelectedObject_early_def)

subsection \<open>Layer moves\<close>

lemma others_swap_down:
  assumes "0 < i" "i < length xs"
  shows "others (i - 1) (xs[i - 1 := xs ! i, i := xs ! (i - 1)]) = others i xs"
proof -
  obtain k where k: "i = Suc k" using assms(1) by (cases i) auto
  have "xs = take k xs @ xs ! k # xs ! Suc k # drop (Suc (Suc k)) xs"
    using assms(2) k by (metis Cons_nth_drop_Suc Suc_lessD append_take_drop_id)
  then obtain as a b bs where xs: "xs = as @ a # b # bs" and la: "length as = k"
    and a: "xs ! k = a" and b: "xs ! Suc k = b"
    using assms(2) k by (metis Suc_lessD length_take less_imp_le_nat min.absorb2)
  have "xs[k := b, Suc k := a] = as @ b # a # bs"
    using xs la by (simp add: list_update_append nth_append)
  then have l: "others k (xs[k := xs ! Suc k, Suc k := xs ! k]) = as @ a # bs"
    using la a b by (simp add: others_def)
  have r: "others (Suc k) xs = as @ a # bs"
    using xs la by (simp add: others_def)
  show ?thesis using l r k by simp
qed

lemma others_swap_up:
  assumes "Suc i < length xs"
  shows "others (Suc i) (xs[i := xs ! Suc i, Suc i := xs ! i]) = others i xs"
proof -
  have "xs = take i xs @ xs ! i # xs ! Suc i # drop (Suc (Suc i)) xs"
    using assms by (metis Cons_nth_drop_Suc Suc_lessD append_take_drop_id)
  then obtain as a b bs where xs: "xs = as @ a # b # bs" and la: "length as = i"
    and a: "xs ! i = a" and b: "xs ! Suc i = b"
    using assms by (metis Suc_lessD length_take less_imp_le_nat min.absorb2)
  have "xs[i := b, Suc i := a] = as @ b # a # bs"
    using xs la by (simp add: list_update_append nth_append)
  then have l: "others (Suc i) (xs[i := xs ! Suc i, Suc i := xs ! i]) = as @ b # bs"
    using la a b by (simp add: others_def)
  have r: "others i xs = as @ b # bs"
    using xs la by (simp add: others_def)
  show ?thesis using l r by simp
qed

text \<open>A relative move keeps the selection on its object and the other objects in order.\<close>

lemma moveLayer_selection:
  assumes "canvas s = Some c" "canvas_getActiveObject c = Some i"
  shows "\<exists>c' i'. canvas (moveLayer J dir s) = Some c' \<and>
           canvas_getActiveObject c' = Some i' \<and>
           objects c' ! i' = objects c ! i \<and>
           others i' (objects c') = others i (objects c)"
proof -
  from assms(2) have act: "activeObject c = Some i" and lt: "i < length (objects c)"
    by (simp_all add: getActive_Some)
  show ?thesis
  proof (cases dir)
    case Up
    show ?thesis
    proof (cases "Suc i < length (objects c)")
      case True
      then show ?thesis
        using assms act lt Up others_swap_up[OF True]
        by (simp add: moveLayer_def Let_def saveState_def toast_def canvas_bringForward_def
            canvas_renderAll_def canvas_getActiveObject_def)
    next
      case False
      then show ?thesis
        using assms act lt Up
        by (simp add: moveLayer_def Let_def saveState_def toast_def canvas_bringForward_def
            canvas_renderAll_def canvas_getActiveObject_def)
    qed
  next
    case Down
    show ?thesis
    proof (cases "0 < i")
      case True
      then show ?thesis
        using assms act lt Down others_swap_down[OF True lt]
        by (simp add: moveLayer_def Let_def saveState_def toast_def canvas_sendBackwards_def
            canvas_renderAll_def canvas_getActiveObject_def)
    next
      case False
      then show ?thesis
        using assms act lt Down
        by (simp add: moveLayer_def Let_def saveState_def toast_def canvas_sendBackwards_def
            canvas_renderAll_def canvas_getActiveObject_def)
    qed
  qed
qed

lemma moveLayers_selection:
  assumes "canvas s = Some c" "canvas_getActiveObject c = Some i"
  shows "\<exists>c' i'. canvas (fold (moveLayer J) dirs s) = Some c' \<and>
           canvas_getActiveObject c' = Some i' \<and>
           objects c' ! i' = objects c ! i \<and>
           others i' (objects c') = others i (objects c)"
  using assms
proof (induction dirs arbitrary: s c i)
  case Nil
  then show ?case by simp
next
  case (Cons d dirs)
  from moveLayer_selection[OF Cons.prems, of J d]
  obtain c1 i1 where c1: "canvas (moveLayer J d s) = Some c1"
      "canvas_getActiveObject c1 = Some i1" "objects c1 ! i1 = objects c ! i"
      "others i1 (objects c1) = others i (objects c)"
    by blast
  from Cons.IH[OF c1(1,2)] c1(3,4) show ?case by simp
qed

lemma bringToFront_result:
  assumes "canvas s = Some c" "canvas_getActiveObject c = Some i"
  shows "\<exists>c'. canvas (bringToFront J s) = Some c' \<and>
           objects c' = others i (objects c) @ [objects c ! i] \<and>
           canvas_getActiveObject c' = Some (length (objects c) - 1) \<and>
           backgroundColor c' = backgroundColor c \<and>
           past (bringToFront J s) = past s @ [stringify J (canvas_toJSON c')] \<and>
           future (bringToFront J s) = []"
proof -
  from assms(2) have act: "activeObject c = Some i" and lt: "i < length (objects c)"
    by (simp_all add: getActive_Some)
  show ?thesis
    using assms act lt
    by (simp add: bringToFront_def Let_def saveState_def toast_def canvas_bringToFront_def
        canvas_renderAll_def canvas_getActiveObject_def others_def)
qed

text \<open>
  C8. With an object selected, \<open>bringToFront\<close> leaves that object at the last index of
  the object list, whatever its position was, keeps all other objects in their order, keeps
  it selected, and records the new surface. The same list results when any sequence of
  relative moves of the selection comes first.
\<close>

theorem bringToFront_places_on_top:
  assumes "canvas s = Some c" "canvas_getActiveObject c = Some i"
  shows "(\<exists>c'. canvas (bringToFront J s) = Some c' \<and>
            objects c' = others i (objects c) @ [objects c ! i] \<and>
            length (objects c') = length (objects c) \<and>
            objects c' ! (length (objects c') - 1) = objects c ! i \<and>
            canvas_getActiveObject c' = Some (length (objects c') - 1) \<and>
            past (bringToFront J s) = past s @ [stringify J (canvas_toJSON c')] \<and>
            future (bringToFront J s) = []) \<and>
         (\<exists>c''. canvas (bringToFront J (fold (moveLayer J) dirs s)) = Some c'' \<and>
            objects c'' = others i (objects c) @ [objects c ! i])"
proof -
  from assms(2) have lt: "i < length (objects c)" by (simp add: getActive_Some)
  then have len: "length (others i (objects c) @ [objects c ! i]) = length (objects c)"
    by (simp add: others_def)
  from bringToFront_result[OF assms, of J]
  obtain c' where c': "canvas (bringToFront J s) = Some c'"
      "objects c' = others i (objects c) @ [objects c ! i]"
      "canvas_getActiveObject c' = Some (length (objects c) - 1)"
      "past (bringToFront J s) = past s @ [stringify J (canvas_toJSON c')]"
      "future (bringToFront J s) = []"
    by blast
  have top: "objects c' ! (length (objects c') - 1) = objects c ! i"
    using c'(2) len by (simp add: nth_append)
  have first: "\<exists>c'. canvas (bringToFront J s) = Some c' \<and>
            objects c' = others i (objects c) @ [objects c ! i] \<and>
            length (objects c') = length (objects c) \<and>
            objects c' ! (length (objects c') - 1) = objects c ! i \<and>
            canvas_getActiveObject c' = Some (length (objects c') - 1) \<and>
            past (bringToFront J s) = past s @ [stringify J (canvas_toJSON c')] \<and>
            future (bringToFront J s) = []"
    using c' len top by simp
  from moveLayers_selection[OF assms, of J dirs]
  obtain c1 i1 where c1: "canvas (fold (moveLayer J) dirs s) = Some c1"
      "canvas_getActiveObject c1 = Some i1" "objects c1 ! i1 = objects c ! i"
      "others i1 (objects c1) = others i (objects c)"
    by blast
  from bringToFront_result[OF c1(1,2), of J] c1(3,4)
  have second: "\<exists>c''. canvas (bringToFront J (fold (moveLayer J) dirs s)) = Some c'' \<and>
            objects c'' = others i (objects c) @ [objects c ! i]"
    by auto
  show ?thesis using first second by blast
qed

theorem bringToFront_places_on_top_witness:
  "canvas demo_lower = Some (demo_rect_circle\<lparr>activeObject := Some 0\<rparr>) \<and>
   canvas_getActiveObject (demo_rect_circle\<lparr>activeObject := Some 0\<rparr>) = Some 0 \<and>
   canvas (bringToFront demo_codec demo_lower) = Some demo_circle_rect \<and>
   past (bringToFront demo_codec demo_lower)
     = [''{objects:[]}'', ''{objects:[rect]}'', ''{objects:[rect,circle]}'',
        ''{objects:[circle,rect]}''] \<and>
   future (bringToFront demo_codec demo_lower) = [] \<and>
   map_option objects
     (canvas (bringToFront demo_codec (fold (moveLayer demo_codec) [Down, Down] demo_lower)))
     = Some (objects demo_circle_rect)"
proof -
  let ?c = "demo_rect_circle\<lparr>activeObject := Some 0\<rparr>"
  have cv: "canvas demo_lower = Some ?c" by (simp add: demo_lower_def)
  have sel: "canvas_getActiveObject ?c = Some 0"
    by (simp add: canvas_getActiveObject_def demo_rect_circle_def)
  have ev: "canvas (bringToFront demo_codec demo_lower) = Some demo_circle_rect"
    by (simp add: demo_lower_def bringToFront_def canvas_bringToFront_def demo_defs model_defs)
  have p: "past demo_lower = [''{objects:[]}'', ''{objects:[rect]}'', ''{objects:[rect,circle]}'']"
    by (simp add: demo_lower_def demo_defs model_defs)
  have e: "stringify demo_codec (canvas_toJSON demo_circle_rect) = ''{objects:[circle,rect]}''"
    by (simp add: demo_defs model_defs)
  have o: "others 0 (objects ?c) @ [objects ?c ! 0] = objects demo_circle_rect"
    by (simp add: others_def demo_defs Rect_def Circle_def)
  from bringToFront_places_on_top[OF cv sel, of demo_codec "[Down, Down]"]
  have "past (bringToFront demo_codec demo_lower)
          = past demo_lower @ [stringify demo_codec (canvas_toJSON demo_circle_rect)] \<and>
        future (bringToFront demo_codec demo_lower) = [] \<and>
        map_option objects
          (canvas (bringToFront demo_codec (fold (moveLayer demo_codec) [Down, Down] demo_lower)))
          = Some (objects demo_circle_rect)"
    unfolding o ev by auto
  then show ?thesis using cv sel ev p e by simp
qed

end
